theory Spec2Isabelle
  imports Complex_Main "HOL-Library.Char_ord" "HOL-Library.List_Lexorder"
begin

unbundle bit_operations_syntax

section \<open>Python values\<close>

text \<open>
  The program is \<^verbatim>\<open>src/blockchain.py\<close>: a class \<^verbatim>\<open>Blockchain\<close> holding a list of blocks and a
  list of pending transactions, and three Flask endpoints around one global instance.
  Blocks and transactions are Python dictionaries with a fixed set of keys; the values that
  reach them from a request body are whatever the JSON parser produced. A JSON value is

  \<^item> \<^verbatim>\<open>None\<close>, a \<^verbatim>\<open>bool\<close>, an \<^verbatim>\<open>int\<close> (unbounded), a \<^verbatim>\<open>float\<close>, a \<^verbatim>\<open>str\<close>,
  \<^item> a \<^verbatim>\<open>list\<close> of values, or a \<^verbatim>\<open>dict\<close> from strings to values (an association list in
    insertion order, with distinct keys).

  A float is represented by the real number it denotes. Strings are lists of 8-bit characters
  (code points below 256).
\<close>

datatype json =
    JNull
  | JBool bool
  | JInt int
  | JFloat real
  | JStr string
  | JArr "json list"
  | JObj "(string \<times> json) list"

datatype error = IndexError | KeyError | TypeError | ValueError

subsection \<open>\<^verbatim>\<open>str\<close> of an integer\<close>

definition digit_char :: "int \<Rightarrow> char" where
  "digit_char d = ''0123456789'' ! nat d"

function str_digits :: "int \<Rightarrow> string" where
  "str_digits n = (if n < 10 then [digit_char n] else str_digits (n div 10) @ [digit_char (n mod 10)])"
  by pat_completeness auto
termination
  by (relation "measure nat") auto

text \<open>
  The decimal string of an integer: what \<^verbatim>\<open>str(i)\<close>, \<^verbatim>\<open>f'{i}'\<close> and \<^verbatim>\<open>json.dumps(i)\<close> produce
  when they produce a string.
\<close>

definition str_int :: "int \<Rightarrow> string" where
  "str_int i = (if i < 0 then CHR ''-'' # str_digits (- i) else str_digits i)"

text \<open>
  The conversion as the interpreter runs it. CPython from 3.11 on (and the later releases
  of 3.7 to 3.10) refuses to convert an int with more decimal digits than
  \<^verbatim>\<open>sys.get_int_max_str_digits()\<close> and raises \<^verbatim>\<open>ValueError\<close>. The setting is 4300 by default;
  it can be changed to 0, which turns the check off, or to a number from 640 on. Older
  interpreters behave as with 0. An int has more than \<open>n\<close> digits exactly when its absolute
  value is at least \<open>10 ^ n\<close>.
\<close>

definition default_max_str_digits :: nat where
  "default_max_str_digits = 4300"

definition format_int :: "nat \<Rightarrow> int \<Rightarrow> error + string" where
  "format_int max_str_digits i =
     (if 0 < max_str_digits \<and> 10 ^ max_str_digits \<le> \<bar>i\<bar> then Inl ValueError
      else Inr (str_int i))"

subsection \<open>\<^verbatim>\<open>str.encode()\<close>: UTF-8\<close>

text \<open>Bytes are integers in \<open>0..255\<close>. A code point below 128 is one byte, one below 256 is two.\<close>

definition encode_char :: "char \<Rightarrow> int list" where
  "encode_char c =
     (let n = of_char c :: int
      in if n < 128 then [n] else [192 + n div 64, 128 + n mod 64])"

definition encode :: "string \<Rightarrow> int list" where
  "encode s = concat (map encode_char s)"

section \<open>\<^verbatim>\<open>hashlib.sha256\<close>\<close>

text \<open>
  The library function is modelled by the algorithm of FIPS 180-4. A 32-bit word is an
  integer in \<open>0..2^32-1\<close>; addition wraps with \<open>mod 2^32\<close> written out, and the bitwise
  operations are those of \<open>int\<close>.
\<close>

type_synonym u32 = int

definition add32 :: "u32 \<Rightarrow> u32 \<Rightarrow> u32" where
  "add32 x y = (x + y) mod 4294967296"

definition rotr :: "nat \<Rightarrow> u32 \<Rightarrow> u32" where
  "rotr n x = drop_bit n x OR (push_bit (32 - n) x mod 4294967296)"

definition not32 :: "u32 \<Rightarrow> u32" where
  "not32 x = 4294967295 - x"

definition ch :: "u32 \<Rightarrow> u32 \<Rightarrow> u32 \<Rightarrow> u32" where
  "ch x y z = (x AND y) XOR (not32 x AND z)"

definition maj :: "u32 \<Rightarrow> u32 \<Rightarrow> u32 \<Rightarrow> u32" where
  "maj x y z = (x AND y) XOR (x AND z) XOR (y AND z)"

definition bsig0 :: "u32 \<Rightarrow> u32" where
  "bsig0 x = rotr 2 x XOR rotr 13 x XOR rotr 22 x"

definition bsig1 :: "u32 \<Rightarrow> u32" where
  "bsig1 x = rotr 6 x XOR rotr 11 x XOR rotr 25 x"

definition ssig0 :: "u32 \<Rightarrow> u32" where
  "ssig0 x = rotr 7 x XOR rotr 18 x XOR drop_bit 3 x"

definition ssig1 :: "u32 \<Rightarrow> u32" where
  "ssig1 x = rotr 17 x XOR rotr 19 x XOR drop_bit 10 x"

text \<open>The round constants, eight to a row.\<close>

definition sha256_k :: "u32 list" where
  "sha256_k = concat
    [[0x428a2f98, 0x71374491, 0xb5c0fbcf, 0xe9b5dba5, 0x3956c25b, 0x59f111f1, 0x923f82a4, 0xab1c5ed5],
     [0xd807aa98, 0x12835b01, 0x243185be, 0x550c7dc3, 0x72be5d74, 0x80deb1fe, 0x9bdc06a7, 0xc19bf174],
     [0xe49b69c1, 0xefbe4786, 0x0fc19dc6, 0x240ca1cc, 0x2de92c6f, 0x4a7484aa, 0x5cb0a9dc, 0x76f988da],
     [0x983e5152, 0xa831c66d, 0xb00327c8, 0xbf597fc7, 0xc6e00bf3, 0xd5a79147, 0x06ca6351, 0x14292967],
     [0x27b70a85, 0x2e1b2138, 0x4d2c6dfc, 0x53380d13, 0x650a7354, 0x766a0abb, 0x81c2c92e, 0x92722c85],
     [0xa2bfe8a1, 0xa81a664b, 0xc24b8b70, 0xc76c51a3, 0xd192e819, 0xd6990624, 0xf40e3585, 0x106aa070],
     [0x19a4c116, 0x1e376c08, 0x2748774c, 0x34b0bcb5, 0x391c0cb3, 0x4ed8aa4a, 0x5b9cca4f, 0x682e6ff3],
     [0x748f82ee, 0x78a5636f, 0x84c87814, 0x8cc70208, 0x90befffa, 0xa4506ceb, 0xbef9a3f7, 0xc67178f2]]"

definition sha256_init :: "u32 list" where
  "sha256_init =
    [0x6a09e667, 0xbb67ae85, 0x3c6ef372, 0xa54ff53a, 0x510e527f, 0x9b05688c, 0x1f83d9ab, 0x5be0cd19]"

text \<open>The bit length of the message as eight bytes, most significant first.\<close>

definition be_bytes :: "int \<Rightarrow> int list" where
  "be_bytes n = map (\<lambda>i. drop_bit (8 * i) n mod 256) [7, 6, 5, 4, 3, 2, 1, 0]"

text \<open>Padding: the byte \<open>0x80\<close>, zero bytes up to 56 modulo 64, then the length in bits.\<close>

definition pad :: "int list \<Rightarrow> int list" where
  "pad m =
     m @ [128] @ replicate ((119 - length m mod 64) mod 64) 0
       @ be_bytes (8 * int (length m) mod 18446744073709551616)"

fun be_words :: "int list \<Rightarrow> u32 list" where
  "be_words (a # b # c # d # bs) =
     (push_bit 24 a OR push_bit 16 b OR push_bit 8 c OR d) # be_words bs"
| "be_words _ = []"

text \<open>
  The message schedule, kept newest word first: with \<open>t\<close> words present, the next one is
  \<open>ssig1 W[t-2] + W[t-7] + ssig0 W[t-15] + W[t-16]\<close>.
\<close>

fun schedule :: "nat \<Rightarrow> u32 list \<Rightarrow> u32 list" where
  "schedule 0 w = w"
| "schedule (Suc n) w =
     schedule n (add32 (add32 (add32 (ssig1 (w ! 1)) (w ! 6)) (ssig0 (w ! 14))) (w ! 15) # w)"

fun sha256_round :: "u32 list \<Rightarrow> u32 \<times> u32 \<Rightarrow> u32 list" where
  "sha256_round [a, b, c, d, e, f, g, h] (k, w) =
     (let t1 = add32 (add32 (add32 (add32 h (bsig1 e)) (ch e f g)) k) w;
          t2 = add32 (bsig0 a) (maj a b c)
      in [add32 t1 t2, a, b, c, add32 d t1, e, f, g])"
| "sha256_round s _ = s"

definition compress :: "u32 list \<Rightarrow> u32 list \<Rightarrow> u32 list" where
  "compress h blk =
     map2 add32 h (foldl sha256_round h (zip sha256_k (rev (schedule 48 (rev blk)))))"

fun blocks :: "nat \<Rightarrow> u32 list \<Rightarrow> u32 list list" where
  "blocks 0 ws = []"
| "blocks (Suc n) ws = take 16 ws # blocks n (drop 16 ws)"

definition sha256 :: "int list \<Rightarrow> u32 list" where
  "sha256 m =
     (let ws = be_words (pad m)
      in foldl compress sha256_init (blocks (length ws div 16) ws))"

definition hex_digit :: "int \<Rightarrow> char" where
  "hex_digit n = ''0123456789abcdef'' ! nat (n mod 16)"

definition hex_word :: "u32 \<Rightarrow> string" where
  "hex_word w = map (\<lambda>i. hex_digit (drop_bit (4 * i) w)) [7, 6, 5, 4, 3, 2, 1, 0]"

text \<open>\<^verbatim>\<open>.hexdigest()\<close>: 64 lowercase hexadecimal characters.\<close>

definition hexdigest :: "u32 list \<Rightarrow> string" where
  "hexdigest h = concat (map hex_word h)"

text \<open>The digest as one number of 256 bits: the eight words, most significant first.\<close>

fun digest_value :: "u32 list \<Rightarrow> int" where
  "digest_value [] = 0"
| "digest_value (w # ws) = w * 2 ^ (32 * length ws) + digest_value ws"

text \<open>Every word of a state lies in \<open>0..2\<^sup>3\<^sup>2 - 1\<close>.\<close>

definition words32 :: "u32 list \<Rightarrow> bool" where
  "words32 ws \<longleftrightarrow> (\<forall>w \<in> set ws. 0 \<le> w \<and> w < 4294967296)"

section \<open>\<^verbatim>\<open>json.dumps(..., sort_keys=True)\<close>\<close>

text \<open>
  The encoder with its default settings: \<^verbatim>\<open>ensure_ascii=True\<close>, item separator \<^verbatim>\<open>", "\<close>, key
  separator \<^verbatim>\<open>": "\<close>. Inside a string, the quote, the backslash and the control characters
  with a short form are escaped with a backslash, the other printable ASCII characters
  (space to tilde) stand for themselves, and every other character is written
  \<^verbatim>\<open>\u00XX\<close>.
\<close>

definition escape_char :: "char \<Rightarrow> string" where
  "escape_char c =
     (let n = of_char c :: int
      in if n = 0x22 then [CHR 0x5C, CHR 0x22]
         else if n = 0x5C then [CHR 0x5C, CHR 0x5C]
         else if n = 0x0A then [CHR 0x5C, CHR ''n'']
         else if n = 0x0D then [CHR 0x5C, CHR ''r'']
         else if n = 0x09 then [CHR 0x5C, CHR ''t'']
         else if n = 0x0C then [CHR 0x5C, CHR ''f'']
         else if n = 0x08 then [CHR 0x5C, CHR ''b'']
         else if 32 \<le> n \<and> n \<le> 126 then [c]
         else [CHR 0x5C, CHR ''u'', CHR ''0'', CHR ''0'', hex_digit (n div 16), hex_digit n])"

definition encode_basestring_ascii :: "string \<Rightarrow> string" where
  "encode_basestring_ascii s = [CHR 0x22] @ concat (map escape_char s) @ [CHR 0x22]"

fun join :: "string \<Rightarrow> string list \<Rightarrow> string" where
  "join sep [] = []"
| "join sep [x] = x"
| "join sep (x # y # ys) = x @ sep @ join sep (y # ys)"

text \<open>
  \<^verbatim>\<open>float.__repr__\<close> (the shortest decimal string that reads back as the same float) is a
  parameter of the encoder, \<open>float_repr\<close>. The items of a dictionary are written in the
  order of their keys, which are compared as Python compares strings: character by
  character, a proper prefix first.
\<close>

fun dumps :: "(real \<Rightarrow> string) \<Rightarrow> json \<Rightarrow> string" where
  "dumps float_repr JNull = ''null''"
| "dumps float_repr (JBool b) = (if b then ''true'' else ''false'')"
| "dumps float_repr (JInt i) = str_int i"
| "dumps float_repr (JFloat x) = float_repr x"
| "dumps float_repr (JStr s) = encode_basestring_ascii s"
| "dumps float_repr (JArr xs) = ''['' @ join '', '' (map (dumps float_repr) xs) @ '']''"
| "dumps float_repr (JObj kvs) =
     ''{'' @ join '', ''
              (map (\<lambda>kv. encode_basestring_ascii (fst kv) @ '': '' @ snd kv)
                 (sort_key fst (map (\<lambda>kv. (fst kv, dumps float_repr (snd kv))) kvs)))
           @ ''}''"

text \<open>
  On a float whose value is an integer of magnitude below \<open>10^16\<close>, \<^verbatim>\<open>repr\<close> is the
  integer followed by \<^verbatim>\<open>.0\<close>. The examples below use such time stamps only.
\<close>

definition repr_integral :: "real \<Rightarrow> string" where
  "repr_integral x = str_int \<lfloor>x\<rfloor> @ ''.0''"

section \<open>The class \<^verbatim>\<open>Blockchain\<close>\<close>

text \<open>
  A transaction is the dictionary built by \<^verbatim>\<open>create_transaction\<close> and a block the one built
  by \<^verbatim>\<open>create_block\<close>. The fields of a transaction hold what the caller passed: the endpoint
  passes the values of the request body unchanged. The field \<^verbatim>\<open>proof\<close> is an int (it is
  written \<open>proof'\<close> here); \<^verbatim>\<open>previous_hash\<close> is the int \<open>1\<close> in the genesis block, a string
  when it comes from \<^verbatim>\<open>hash\<close>, and \<^verbatim>\<open>None\<close> by default.
\<close>

record transaction =
  sender :: json
  recipient :: json
  amount :: json

record block =
  index :: int
  timestamp :: real
  transactions :: "transaction list"
  proof' :: int
  previous_hash :: json

record blockchain =
  chain :: "block list"
  current_transactions :: "transaction list"

definition transaction_json :: "transaction \<Rightarrow> json" where
  "transaction_json t =
     JObj [(''sender'', sender t), (''recipient'', recipient t), (''amount'', amount t)]"

definition block_json :: "block \<Rightarrow> json" where
  "block_json b =
     JObj [(''index'', JInt (index b)),
           (''timestamp'', JFloat (timestamp b)),
           (''transactions'', JArr (map transaction_json (transactions b))),
           (''proof'', JInt (proof' b)),
           (''previous_hash'', previous_hash b)]"

text \<open>
  \<^verbatim>\<open>create_block\<close> reads the clock (\<open>now\<close>), builds the block from the pending list, rebinds
  \<^verbatim>\<open>current_transactions\<close> to a new empty list and appends the block. The block keeps the old
  list object, which nothing else refers to any more, so lists are values here.
\<close>

definition create_block :: "int \<Rightarrow> json \<Rightarrow> real \<Rightarrow> blockchain \<Rightarrow> block \<times> blockchain" where
  "create_block proof previous_hash' now s =
     (let block = \<lparr>index = int (length (chain s)) + 1,
                   timestamp = now,
                   transactions = current_transactions s,
                   proof' = proof,
                   previous_hash = previous_hash'\<rparr>
      in (block, s\<lparr>current_transactions := [], chain := chain s @ [block]\<rparr>))"

text \<open>\<^verbatim>\<open>__init__\<close>: two empty lists, then the genesis block.\<close>

definition init :: "real \<Rightarrow> blockchain" where
  "init now = snd (create_block 100 (JInt 1) now \<lparr>chain = [], current_transactions = []\<rparr>)"

text \<open>\<^verbatim>\<open>self.chain[-1]\<close> raises \<^verbatim>\<open>IndexError\<close> on an empty list.\<close>

definition last_block :: "blockchain \<Rightarrow> error + block" where
  "last_block s = (if chain s = [] then Inl IndexError else Inr (last (chain s)))"

text \<open>The append comes first, so it has happened even when \<^verbatim>\<open>last_block\<close> raises.\<close>

definition create_transaction ::
  "json \<Rightarrow> json \<Rightarrow> json \<Rightarrow> blockchain \<Rightarrow> (error + int) \<times> blockchain" where
  "create_transaction sender' recipient' amount' s =
     (let s' = s\<lparr>current_transactions :=
                   current_transactions s
                     @ [\<lparr>sender = sender', recipient = recipient', amount = amount'\<rparr>]\<rparr>
      in case last_block s' of
           Inl e \<Rightarrow> (Inl e, s')
         | Inr b \<Rightarrow> (Inr (index b + 1), s'))"

definition hash :: "(real \<Rightarrow> string) \<Rightarrow> block \<Rightarrow> string" where
  "hash float_repr block =
     (let block_string = encode (dumps float_repr (block_json block))
      in hexdigest (sha256 block_string))"

definition valid_proof :: "int \<Rightarrow> int \<Rightarrow> bool" where
  "valid_proof last_proof proof =
     (let guess = encode (str_int last_proof @ str_int proof);
          guess_hash = hexdigest (sha256 guess)
      in take 2 guess_hash = ''00'')"

text \<open>
  \<^verbatim>\<open>valid_proof\<close> above is the verdict. The call itself, under an interpreter with the given
  limit on int-to-string conversion: the f-string converts \<^verbatim>\<open>last_proof\<close>, then \<^verbatim>\<open>proof\<close>, and
  either conversion can raise.
\<close>

definition valid_proof_call :: "nat \<Rightarrow> int \<Rightarrow> int \<Rightarrow> error + bool" where
  "valid_proof_call max_str_digits last_proof proof =
     (case format_int max_str_digits last_proof of
        Inl e \<Rightarrow> Inl e
      | Inr a \<Rightarrow>
          (case format_int max_str_digits proof of
             Inl e \<Rightarrow> Inl e
           | Inr b \<Rightarrow>
               (let guess = encode (a @ b);
                    guess_hash = hexdigest (sha256 guess)
                in Inr (take 2 guess_hash = ''00''))))"

text \<open>
  The loop of \<^verbatim>\<open>proof_of_work\<close> has no bound. It is a partial function: \<open>None\<close> is the
  search that never ends.
\<close>

partial_function (option) proof_of_work_loop :: "int \<Rightarrow> int \<Rightarrow> int option" where
  "proof_of_work_loop last_proof proof =
     (if valid_proof last_proof proof then Some proof
      else proof_of_work_loop last_proof (proof + 1))"

definition proof_of_work :: "int \<Rightarrow> int option" where
  "proof_of_work last_proof = proof_of_work_loop last_proof 0"

section \<open>The endpoints\<close>

text \<open>
  A handler returns a body and a status code, or raises. A body is a plain string or the
  JSON document made by \<^verbatim>\<open>jsonify\<close>.
\<close>

datatype body = Text string | Json json

type_synonym response = "body \<times> int"

text \<open>
  \<^verbatim>\<open>/mine\<close>. The node identifier is fixed when the module is loaded. The handler returns
  \<open>None\<close> when the search for the proof does not end.
\<close>

definition mine ::
  "(real \<Rightarrow> string) \<Rightarrow> string \<Rightarrow> real \<Rightarrow> blockchain \<Rightarrow> ((error + response) \<times> blockchain) option" where
  "mine float_repr node_identifier now s =
     (case last_block s of
        Inl e \<Rightarrow> Some (Inl e, s)
      | Inr lb \<Rightarrow>
          (case proof_of_work (proof' lb) of
             None \<Rightarrow> None
           | Some proof \<Rightarrow>
               (case create_transaction (JStr ''0'') (JStr node_identifier) (JInt 1) s of
                  (Inl e, s1) \<Rightarrow> Some (Inl e, s1)
                | (Inr _, s1) \<Rightarrow>
                    (let previous_hash' = hash float_repr lb;
                         (block, s2) = create_block proof (JStr previous_hash') now s1;
                         response =
                           JObj [(''message'', JStr ''New Block Forged''),
                                 (''index'', JInt (index block)),
                                 (''transactions'', JArr (map transaction_json (transactions block))),
                                 (''proof'', JInt (proof' block)),
                                 (''previous_hash'', previous_hash block)]
                     in Some (Inr (Json response, 200), s2)))))"

text \<open>
  \<^verbatim>\<open>/transactions/new\<close>. The body of the request is whatever \<^verbatim>\<open>request.get_json()\<close>
  returned. \<^verbatim>\<open>k in values\<close> is key membership on a dict, element membership on a list, the
  substring test on a str, and a \<^verbatim>\<open>TypeError\<close> on the other values; \<^verbatim>\<open>values[k]\<close> with a
  string \<open>k\<close> succeeds on a dict that has the key only.
\<close>

fun substring :: "string \<Rightarrow> string \<Rightarrow> bool" where
  "substring k [] = (k = [])"
| "substring k (c # cs) = (take (length k) (c # cs) = k \<or> substring k cs)"

fun py_in :: "string \<Rightarrow> json \<Rightarrow> error + bool" where
  "py_in k (JObj kvs) = Inr (k \<in> set (map fst kvs))"
| "py_in k (JArr xs) = Inr (JStr k \<in> set xs)"
| "py_in k (JStr s) = Inr (substring k s)"
| "py_in k _ = Inl TypeError"

text \<open>\<^verbatim>\<open>all(k in values for k in required)\<close>: in order, stopping at the first \<^verbatim>\<open>False\<close>.\<close>

fun all_in :: "string list \<Rightarrow> json \<Rightarrow> error + bool" where
  "all_in [] values = Inr True"
| "all_in (k # ks) values =
     (case py_in k values of
        Inl e \<Rightarrow> Inl e
      | Inr b \<Rightarrow> if b then all_in ks values else Inr False)"

fun getitem :: "json \<Rightarrow> string \<Rightarrow> error + json" where
  "getitem (JObj kvs) k = (case map_of kvs k of None \<Rightarrow> Inl KeyError | Some v \<Rightarrow> Inr v)"
| "getitem _ k = Inl TypeError"

definition required :: "string list" where
  "required = [''sender'', ''recipient'', ''amount'']"

definition create_transaction_endpoint :: "json \<Rightarrow> blockchain \<Rightarrow> (error + response) \<times> blockchain" where
  "create_transaction_endpoint values s =
     (case all_in required values of
        Inl e \<Rightarrow> (Inl e, s)
      | Inr ok \<Rightarrow>
          if \<not> ok then (Inr (Text ''Missing values'', 400), s)
          else
            (case getitem values ''sender'' of
               Inl e \<Rightarrow> (Inl e, s)
             | Inr a \<Rightarrow>
            (case getitem values ''recipient'' of
               Inl e \<Rightarrow> (Inl e, s)
             | Inr b \<Rightarrow>
            (case getitem values ''amount'' of
               Inl e \<Rightarrow> (Inl e, s)
             | Inr c \<Rightarrow>
            (case create_transaction a b c s of
               (Inl e, s') \<Rightarrow> (Inl e, s')
             | (Inr index', s') \<Rightarrow>
                 (let response =
                        JObj [(''message'',
                               JStr (''Transaction will be added to Block '' @ str_int index'))]
                  in (Inr (Json response, 201), s')))))))"

text \<open>\<^verbatim>\<open>/chain\<close>.\<close>

definition full_chain :: "blockchain \<Rightarrow> response" where
  "full_chain s =
     (Json (JObj [(''chain'', JArr (map block_json (chain s))),
                  (''length'', JInt (int (length (chain s))))]), 200)"

section \<open>Reachable states\<close>

text \<open>
  The states of a ledger that was constructed and then used through its two mutating
  methods, with any arguments and at any times.
\<close>

inductive reachable :: "blockchain \<Rightarrow> bool" where
  reachable_init: "reachable (init now)"
| reachable_enqueue: "reachable s \<Longrightarrow> reachable (snd (create_transaction a b c s))"
| reachable_commit: "reachable s \<Longrightarrow> reachable (snd (create_block p h now s))"

text \<open>
  The same, where every commit is given the hash of the block that is last at that
  moment, as \<^verbatim>\<open>mine\<close> does.
\<close>

inductive reachable_linked :: "(real \<Rightarrow> string) \<Rightarrow> blockchain \<Rightarrow> bool"
  for float_repr :: "real \<Rightarrow> string" where
  linked_init: "reachable_linked float_repr (init now)"
| linked_enqueue:
    "reachable_linked float_repr s \<Longrightarrow> reachable_linked float_repr (snd (create_transaction a b c s))"
| linked_commit:
    "reachable_linked float_repr s \<Longrightarrow> last_block s = Inr lb \<Longrightarrow>
     reachable_linked float_repr (snd (create_block p (JStr (hash float_repr lb)) now s))"

text \<open>Enqueueing a list of transfers, one call each, in order.\<close>

definition enqueue_all :: "(json \<times> json \<times> json) list \<Rightarrow> blockchain \<Rightarrow> blockchain" where
  "enqueue_all txs s = foldl (\<lambda>s (a, b, c). snd (create_transaction a b c s)) s txs"

definition transfer :: "json \<times> json \<times> json \<Rightarrow> transaction" where
  "transfer t = (case t of (a, b, c) \<Rightarrow> \<lparr>sender = a, recipient = b, amount = c\<rparr>)"

section \<open>Invariants\<close>

text \<open>Block \<open>i\<close> of the chain (counted from 0) carries the index \<open>i + 1\<close>.\<close>

definition indexed :: "block list \<Rightarrow> bool" where
  "indexed bs \<longleftrightarrow> (\<forall>i < length bs. index (bs ! i) = int i + 1)"

text \<open>Every block but the first carries the hash of the block before it.\<close>

definition linked :: "(real \<Rightarrow> string) \<Rightarrow> block list \<Rightarrow> bool" where
  "linked float_repr bs \<longleftrightarrow>
     (\<forall>i. 0 < i \<and> i < length bs \<longrightarrow> previous_hash (bs ! i) = JStr (hash float_repr (bs ! (i - 1))))"

section \<open>Example ledgers\<close>

text \<open>
  A fresh ledger, one transfer enqueued, one block committed with a proof and a previous
  hash chosen by the caller.
\<close>

definition ledger_b :: blockchain where
  "ledger_b =
     snd (create_block 35 (JStr ''abc'') 1541030460
            (snd (create_transaction (JStr ''a'') (JStr ''b'') (JInt 5) (init 1541030400))))"

text \<open>The same, committed with the hash of the genesis block.\<close>

definition ledger_c :: blockchain where
  "ledger_c =
     snd (create_block 226 (JStr (hash repr_integral (last (chain (init 1541030400))))) 1541030460
            (snd (create_transaction (JStr ''a'') (JStr ''b'') (JInt 5) (init 1541030400))))"

text \<open>A request body without the field \<^verbatim>\<open>amount\<close>.\<close>

definition body_d :: json where
  "body_d = JObj [(''sender'', JStr ''a''), (''recipient'', JStr ''b'')]"

section \<open>Properties of the hash function\<close>

lemma length_sha256_round: "length (sha256_round s kw) = length s"
  by (cases "(s, kw)" rule: sha256_round.cases) (simp_all add: Let_def)

lemma length_foldl_round: "length (foldl sha256_round s kws) = length s"
  by (induction kws arbitrary: s) (simp_all add: length_sha256_round)

lemma length_compress: "length (compress h blk) = length h"
  by (simp add: compress_def length_foldl_round)

lemma length_foldl_compress: "length (foldl compress h bs) = length h"
  by (induction bs arbitrary: h) (simp_all add: length_compress)

lemma length_sha256: "length (sha256 m) = 8"
  by (simp add: sha256_def Let_def length_foldl_compress sha256_init_def)

lemma length_hex_word: "length (hex_word w) = 8"
  by (simp add: hex_word_def)

lemma length_concat_hex: "length (concat (map hex_word h)) = 8 * length h"
  by (induction h) (simp_all add: length_hex_word)

lemma length_hexdigest: "length (hexdigest (sha256 m)) = 64"
  by (simp add: hexdigest_def length_concat_hex length_sha256)

lemma length_hash: "length (hash float_repr b) = 64"
  by (simp add: hash_def Let_def length_hexdigest)

section \<open>The first two characters of a digest\<close>

text \<open>
  The digest starts with \<^verbatim>\<open>00\<close> exactly when its first byte is zero, that is, when the digest
  read as a number of 256 bits is below \<open>2\<^sup>2\<^sup>4\<^sup>8\<close>.
\<close>

lemma hex_digit_table:
  "\<forall>k \<in> set [0..<16]. (''0123456789abcdef'' ! k = CHR ''0'') = (k = 0)"
  by code_simp

lemma hex_digit_zero: "hex_digit n = CHR ''0'' \<longleftrightarrow> n mod 16 = 0"
proof -
  have "nat (n mod 16) \<in> set [0..<16]" by simp
  with hex_digit_table
  have "(''0123456789abcdef'' ! nat (n mod 16) = CHR ''0'') = (nat (n mod 16) = 0)" by blast
  moreover have "0 \<le> n mod 16" by simp
  then have "(nat (n mod 16) = 0) = (n mod 16 = 0)" by auto
  ultimately show ?thesis by (simp add: hex_digit_def)
qed

lemma take2_hexdigest:
  "take 2 (hexdigest (w # ws)) = [hex_digit (drop_bit 28 w), hex_digit (drop_bit 24 w)]"
  by (simp add: hexdigest_def hex_word_def)

lemma top_byte_zero:
  assumes "0 \<le> w" and "w < 4294967296"
  shows "(w div 268435456) mod 16 = 0 \<and> (w div 16777216) mod 16 = 0 \<longleftrightarrow> w < (16777216 :: int)"
proof
  assume a: "(w div 268435456) mod 16 = 0 \<and> (w div 16777216) mod 16 = 0"
  have "w div 268435456 < 16" using assms by simp
  moreover have "0 \<le> w div 268435456" using assms by simp
  ultimately have "w div 268435456 = 0" using a by simp
  then have w28: "w < 268435456" using assms by simp
  then have "w div 16777216 < 16" by simp
  moreover have "0 \<le> w div 16777216" using assms by simp
  ultimately have "w div 16777216 = 0" using a by simp
  then show "w < 16777216" using assms by simp
next
  assume "w < 16777216"
  with assms show "(w div 268435456) mod 16 = 0 \<and> (w div 16777216) mod 16 = 0" by simp
qed

lemma add32_range: "0 \<le> add32 x y \<and> add32 x y < 4294967296"
  by (simp add: add32_def)

lemma words32_compress: "words32 (compress h blk)"
  by (auto simp: words32_def compress_def add32_range set_zip)

lemma words32_foldl_compress: "words32 h \<Longrightarrow> words32 (foldl compress h bs)"
  by (induction bs arbitrary: h) (simp_all add: words32_compress)

lemma words32_init: "words32 sha256_init"
  by (simp add: words32_def sha256_init_def)

lemma words32_sha256: "words32 (sha256 m)"
  by (simp add: sha256_def Let_def words32_foldl_compress words32_init)

lemma digest_value_range:
  "words32 ws \<Longrightarrow> 0 \<le> digest_value ws \<and> digest_value ws < 2 ^ (32 * length ws)"
proof (induction ws)
  case Nil
  show ?case by simp
next
  case (Cons w ws)
  then have w: "0 \<le> w" "w + 1 \<le> 2 ^ 32" and r: "0 \<le> digest_value ws"
    "digest_value ws < 2 ^ (32 * length ws)"
    by (simp_all add: words32_def)
  let ?B = "(2::int) ^ (32 * length ws)"
  have "w * ?B + digest_value ws < (w + 1) * ?B" using r by (simp add: algebra_simps)
  also have "\<dots> \<le> 2 ^ 32 * ?B" using w(2) by (rule mult_right_mono) simp
  also have "\<dots> = 2 ^ (32 * length (w # ws))" by (simp add: power_add)
  finally have "digest_value (w # ws) < 2 ^ (32 * length (w # ws))" by simp
  moreover have "0 \<le> digest_value (w # ws)" using w(1) r(1) by simp
  ultimately show ?case by simp
qed

lemma digest_value_top:
  assumes "words32 (w # ws)" and "length ws = 7"
  shows "digest_value (w # ws) < 2 ^ 248 \<longleftrightarrow> w < 16777216"
proof -
  from assms(1) have ws: "words32 ws" and w: "0 \<le> w" by (simp_all add: words32_def)
  from digest_value_range [OF ws] assms(2)
  have r: "0 \<le> digest_value ws" "digest_value ws < 2 ^ 224" by simp_all
  have p: "(2::int) ^ 248 = 16777216 * 2 ^ 224" by simp
  have dv: "digest_value (w # ws) = w * 2 ^ 224 + digest_value ws" using assms(2) by simp
  show ?thesis
  proof
    assume "digest_value (w # ws) < 2 ^ 248"
    with dv r(1) have "w * 2 ^ 224 < 16777216 * (2::int) ^ 224" using p by linarith
    then show "w < 16777216" by simp
  next
    assume "w < 16777216"
    then have "w + 1 \<le> 16777216" by simp
    then have "(w + 1) * 2 ^ 224 \<le> 16777216 * (2::int) ^ 224" by (rule mult_right_mono) simp
    moreover have "w * 2 ^ 224 + digest_value ws < (w + 1) * 2 ^ 224"
      using r(2) by (simp add: algebra_simps)
    ultimately show "digest_value (w # ws) < 2 ^ 248" using dv p by linarith
  qed
qed

lemma valid_iff_top_byte:
  "take 2 (hexdigest (sha256 m)) = ''00'' \<longleftrightarrow> digest_value (sha256 m) < 2 ^ 248"
proof -
  have "length (sha256 m) = 8" by (rule length_sha256)
  then obtain w ws where s: "sha256 m = w # ws" and l: "length ws = 7"
    by (cases "sha256 m") simp_all
  have w32: "words32 (w # ws)" using words32_sha256 [of m] s by simp
  then have w: "0 \<le> w" "w < 4294967296" by (simp_all add: words32_def)
  have "take 2 (hexdigest (w # ws)) = ''00'' \<longleftrightarrow>
          (w div 268435456) mod 16 = 0 \<and> (w div 16777216) mod 16 = 0"
    by (simp add: take2_hexdigest hex_digit_zero drop_bit_eq_div)
  also have "\<dots> \<longleftrightarrow> w < 16777216" using w by (rule top_byte_zero)
  also have "\<dots> \<longleftrightarrow> digest_value (w # ws) < 2 ^ 248"
    using digest_value_top [OF w32 l] by simp
  finally show ?thesis by (simp add: s)
qed

section \<open>Properties of the ledger operations\<close>

lemma create_block_fst:
  "fst (create_block p h now s) =
     \<lparr>index = int (length (chain s)) + 1, timestamp = now,
      transactions = current_transactions s, proof' = p, previous_hash = h\<rparr>"
  by (simp add: create_block_def Let_def)

lemma create_block_chain:
  "chain (snd (create_block p h now s)) = chain s @ [fst (create_block p h now s)]"
  by (simp add: create_block_def Let_def)

lemma create_block_pending: "current_transactions (snd (create_block p h now s)) = []"
  by (simp add: create_block_def Let_def)

lemma create_transaction_chain: "chain (snd (create_transaction a b c s)) = chain s"
  by (simp add: create_transaction_def Let_def last_block_def split: sum.splits)

lemma create_transaction_pending:
  "current_transactions (snd (create_transaction a b c s)) =
     current_transactions s @ [\<lparr>sender = a, recipient = b, amount = c\<rparr>]"
  by (simp add: create_transaction_def Let_def last_block_def)

lemma enqueue_all_chain: "chain (enqueue_all txs s) = chain s"
  unfolding enqueue_all_def
  by (induction txs arbitrary: s) (simp_all add: create_transaction_chain split: prod.splits)

lemma enqueue_all_pending:
  "current_transactions (enqueue_all txs s) = current_transactions s @ map transfer txs"
  unfolding enqueue_all_def
  by (induction txs arbitrary: s)
     (simp_all add: create_transaction_pending transfer_def split: prod.splits)

lemma indexed_snoc: "indexed bs \<Longrightarrow> index b = int (length bs) + 1 \<Longrightarrow> indexed (bs @ [b])"
  by (auto simp: indexed_def nth_append less_Suc_eq)

lemma reachable_inv: "reachable s \<Longrightarrow> chain s \<noteq> [] \<and> indexed (chain s)"
proof (induction rule: reachable.induct)
  case (reachable_init now)
  show ?case by (simp add: init_def create_block_def indexed_def Let_def)
next
  case (reachable_enqueue s a b c)
  then show ?case by (simp add: create_transaction_chain)
next
  case (reachable_commit s p h now)
  then show ?case
    by (simp add: create_block_chain create_block_fst indexed_snoc)
qed

lemma linked_reachable: "reachable_linked float_repr s \<Longrightarrow> reachable s"
  by (induction rule: reachable_linked.induct) (auto intro: reachable.intros)

section \<open>Properties of the search\<close>

text \<open>
  If some candidate from \<open>p\<close> on is valid, the loop started at \<open>p\<close> returns the least
  such candidate.
\<close>

lemma loop_finds:
  "valid_proof r c \<Longrightarrow> p \<le> c \<Longrightarrow>
   \<exists>q. proof_of_work_loop r p = Some q \<and> p \<le> q \<and> q \<le> c \<and> valid_proof r q
       \<and> (\<forall>c'. p \<le> c' \<and> c' < q \<longrightarrow> \<not> valid_proof r c')"
proof (induction "nat (c - p)" arbitrary: p)
  case 0
  then have "p = c" by simp
  with 0 show ?case by (subst proof_of_work_loop.simps) auto
next
  case (Suc n)
  show ?case
  proof (cases "valid_proof r p")
    case True
    with Suc.prems show ?thesis by (subst proof_of_work_loop.simps) auto
  next
    case False
    have "n = nat (c - (p + 1))" using Suc.hyps(2) by simp
    moreover have "p + 1 \<le> c" using Suc.hyps(2) by simp
    ultimately obtain q where q: "proof_of_work_loop r (p + 1) = Some q" "p + 1 \<le> q" "q \<le> c"
      "valid_proof r q" "\<forall>c'. p + 1 \<le> c' \<and> c' < q \<longrightarrow> \<not> valid_proof r c'"
      using Suc.hyps(1) [of "p + 1"] Suc.prems(1) by blast
    have "proof_of_work_loop r p = Some q"
      using False q(1) by (subst proof_of_work_loop.simps) simp
    moreover have "\<forall>c'. p \<le> c' \<and> c' < q \<longrightarrow> \<not> valid_proof r c'"
    proof (intro allI impI)
      fix c' assume "p \<le> c' \<and> c' < q"
      then have "c' = p \<or> (p + 1 \<le> c' \<and> c' < q)" by auto
      then show "\<not> valid_proof r c'" using False q(5) by auto
    qed
    ultimately show ?thesis using q by auto
  qed
qed

text \<open>Whatever the loop returns is a valid candidate, not below its starting point.\<close>

lemma loop_sound:
  "proof_of_work_loop r p = Some q \<Longrightarrow> p \<le> q \<and> valid_proof r q"
proof (induction r p q rule: proof_of_work_loop.raw_induct[rotated 1, consumes 1])
  case (1 loop r p q)
  show ?case
  proof (cases "valid_proof r p")
    case True
    with 1(2) show ?thesis by simp
  next
    case False
    with 1(2) have "loop r (p + 1) = Some q" by simp
    from 1(1) [OF this] show ?thesis by simp
  qed
qed

text \<open>Without a valid candidate the search does not return.\<close>

lemma proof_of_work_None:
  "(\<And>c. 0 \<le> c \<Longrightarrow> \<not> valid_proof r c) \<Longrightarrow> proof_of_work r = None"
  using loop_sound [of r 0] by (cases "proof_of_work r") (auto simp: proof_of_work_def)

section \<open>Evaluations\<close>

text \<open>
  Values of the difficulty predicate and of the block hash at concrete inputs, computed
  from the definitions.
\<close>

lemma valid_proof_67_0: "\<not> valid_proof 67 0"
  by code_simp

lemma valid_proof_67_1: "valid_proof 67 1"
  by code_simp

lemma valid_proof_100_226: "valid_proof 100 226"
  by code_simp

lemma hash_genesis:
  "hash repr_integral
     \<lparr>index = 1, timestamp = 1541030400, transactions = [], proof' = 100, previous_hash = JInt 1\<rparr>
   = ''1d7aed1306591daf3108a9d8f831c03029d95f30df258f2169cd0dd80275890d''"
  by code_simp

lemma reachable_ledger_b: "reachable ledger_b"
  unfolding ledger_b_def by (intro reachable.intros)

lemma chain_ledger_b:
  "chain ledger_b =
     [\<lparr>index = 1, timestamp = 1541030400, transactions = [], proof' = 100, previous_hash = JInt 1\<rparr>,
      \<lparr>index = 2, timestamp = 1541030460,
       transactions = [\<lparr>sender = JStr ''a'', recipient = JStr ''b'', amount = JInt 5\<rparr>],
       proof' = 35, previous_hash = JStr ''abc''\<rparr>]"
  by (simp add: ledger_b_def init_def create_block_def create_transaction_def last_block_def Let_def)

section \<open>The linked chain\<close>

lemma linked_snoc:
  "linked fr bs \<Longrightarrow> bs \<noteq> [] \<Longrightarrow> previous_hash b = JStr (hash fr (last bs)) \<Longrightarrow> linked fr (bs @ [b])"
  unfolding linked_def
proof (intro allI impI)
  fix i
  assume old: "\<forall>i. 0 < i \<and> i < length bs \<longrightarrow> previous_hash (bs ! i) = JStr (hash fr (bs ! (i - 1)))"
    and ne: "bs \<noteq> []" and b: "previous_hash b = JStr (hash fr (last bs))"
    and i: "0 < i \<and> i < length (bs @ [b])"
  show "previous_hash ((bs @ [b]) ! i) = JStr (hash fr ((bs @ [b]) ! (i - 1)))"
  proof (cases "i < length bs")
    case True
    with i have "i - 1 < length bs" by simp
    with True old i show ?thesis by (simp add: nth_append)
  next
    case False
    with i have "i = length bs" by simp
    with ne b show ?thesis by (simp add: nth_append last_conv_nth)
  qed
qed

lemma linked_inv: "reachable_linked fr s \<Longrightarrow> linked fr (chain s)"
proof (induction rule: reachable_linked.induct)
  case (linked_init now)
  show ?case by (auto simp: init_def create_block_def linked_def Let_def)
next
  case (linked_enqueue s a b c)
  then show ?case by (simp add: create_transaction_chain)
next
  case (linked_commit s lb p now)
  from linked_commit.hyps(2) have "chain s \<noteq> []" "lb = last (chain s)"
    by (auto simp: last_block_def split: if_splits)
  with linked_commit.IH show ?case
    by (simp add: create_block_chain create_block_fst linked_snoc)
qed

text \<open>
  On a non-empty chain \<^verbatim>\<open>create_transaction\<close> returns, and \<^verbatim>\<open>/mine\<close> returns whenever the
  search does. A step of \<^verbatim>\<open>/mine\<close> is an enqueue followed by a commit with the hash of the
  last block.
\<close>

lemma create_transaction_nonempty:
  "chain s \<noteq> [] \<Longrightarrow>
   create_transaction a b c s =
     (Inr (index (last (chain s)) + 1),
      s\<lparr>current_transactions :=
           current_transactions s @ [\<lparr>sender = a, recipient = b, amount = c\<rparr>]\<rparr>)"
  by (simp add: create_transaction_def last_block_def Let_def)

lemma mine_Some:
  assumes "chain s \<noteq> []" and "proof_of_work (proof' (last (chain s))) = Some p"
  shows "\<exists>r. mine fr nid now s =
           Some (Inr (r, 200),
                 snd (create_block p (JStr (hash fr (last (chain s)))) now
                        (snd (create_transaction (JStr ''0'') (JStr nid) (JInt 1) s))))"
  using assms
  by (simp add: mine_def last_block_def create_transaction_nonempty Let_def split: prod.splits)

lemma mine_linked:
  assumes "reachable_linked fr s" and "mine fr nid now s = Some (res, s')"
  shows "reachable_linked fr s'"
proof -
  from linked_reachable [OF assms(1)] reachable_inv have ne: "chain s \<noteq> []" by blast
  then have lb: "last_block s = Inr (last (chain s))" by (simp add: last_block_def)
  from assms(2) lb obtain p where p: "proof_of_work (proof' (last (chain s))) = Some p"
    by (cases "proof_of_work (proof' (last (chain s)))") (simp_all add: mine_def)
  let ?s1 = "snd (create_transaction (JStr ''0'') (JStr nid) (JInt 1) s)"
  have s1: "reachable_linked fr ?s1" using assms(1) by (rule linked_enqueue)
  have lb1: "last_block ?s1 = Inr (last (chain s))"
    using ne by (simp add: last_block_def create_transaction_chain)
  from mine_Some [OF ne p, of fr nid now] assms(2)
  have "s' = snd (create_block p (JStr (hash fr (last (chain s)))) now ?s1)" by auto
  with linked_commit [OF s1 lb1] show ?thesis by simp
qed

lemma mine_returns:
  assumes "reachable s" and "0 \<le> c" and "valid_proof (proof' (last (chain s))) c"
  shows "\<exists>r s'. mine fr nid now s = Some (Inr (r, 200), s')
            \<and> length (chain s') = length (chain s) + 1 \<and> current_transactions s' = []"
proof -
  from reachable_inv [OF assms(1)] have ne: "chain s \<noteq> []" by simp
  from loop_finds [OF assms(3), of 0] assms(2)
  obtain p where p: "proof_of_work (proof' (last (chain s))) = Some p"
    by (auto simp: proof_of_work_def)
  from mine_Some [OF ne p, of fr nid now] show ?thesis
    by (auto simp: create_block_chain create_block_pending create_transaction_chain)
qed

lemma reachable_linked_ledger_c: "reachable_linked repr_integral ledger_c"
  unfolding ledger_c_def
  by (intro reachable_linked.intros)
     (simp add: last_block_def create_transaction_chain init_def create_block_def Let_def)

lemma chain_ledger_c:
  "chain ledger_c =
     [\<lparr>index = 1, timestamp = 1541030400, transactions = [], proof' = 100, previous_hash = JInt 1\<rparr>,
      \<lparr>index = 2, timestamp = 1541030460,
       transactions = [\<lparr>sender = JStr ''a'', recipient = JStr ''b'', amount = JInt 5\<rparr>],
       proof' = 226,
       previous_hash = JStr ''1d7aed1306591daf3108a9d8f831c03029d95f30df258f2169cd0dd80275890d''\<rparr>]"
  by (simp add: ledger_c_def init_def create_block_def create_transaction_def last_block_def Let_def
        hash_genesis)

section \<open>The request check\<close>

lemma all_in_missing:
  "k \<in> set ks \<Longrightarrow> k \<notin> fst ` set kvs \<Longrightarrow> all_in ks (JObj kvs) = Inr False"
  by (induction ks) auto

lemma all_in_True:
  "all_in ks values = Inr True \<Longrightarrow> ks \<noteq> [] \<Longrightarrow> getitem values k = Inr v \<Longrightarrow>
   \<exists>kvs. values = JObj kvs \<and> set ks \<subseteq> fst ` set kvs"
proof (cases "values")
  case (JObj kvs)
  assume "all_in ks values = Inr True"
  then have "set ks \<subseteq> fst ` set kvs" unfolding JObj
    by (induction ks) (auto split: if_splits)
  with JObj show ?thesis by simp
qed simp_all

text \<open>
  Bodies that are not dicts: the check is then a membership or substring test, or raises.
  A string that happens to contain the three names passes it, and the subscript raises.
\<close>

lemma endpoint_on_empty_list:
  "create_transaction_endpoint (JArr []) s = (Inr (Text ''Missing values'', 400), s)"
  by (simp add: create_transaction_endpoint_def required_def)

lemma endpoint_on_names: "create_transaction_endpoint (JStr ''sender recipient amount'') s = (Inl TypeError, s)"
  by (simp add: create_transaction_endpoint_def required_def)

text \<open>
  A dict without one of the three keys is answered with \<^verbatim>\<open>'Missing values'\<close> and status 400,
  and the ledger is the one before the request.
\<close>

lemma object_missing_field:
  "k \<in> set required \<Longrightarrow> k \<notin> fst ` set kvs \<Longrightarrow>
   create_transaction_endpoint (JObj kvs) s = (Inr (Text ''Missing values'', 400), s)"
  by (simp add: create_transaction_endpoint_def all_in_missing)

lemma object_without_amount:
  "create_transaction_endpoint body_d ledger_b = (Inr (Text ''Missing values'', 400), ledger_b)"
proof -
  have k: "''amount'' \<in> set required" by (simp add: required_def)
  have m: "''amount'' \<notin> fst ` set [(''sender'', JStr ''a''), (''recipient'', JStr ''b'')]" by simp
  from object_missing_field [OF k m, of ledger_b] show ?thesis
    by (simp add: body_d_def)
qed

text \<open>
  The handler changes the ledger only when the body is a dict with all three keys. Every
  other body, of any type, leaves it as it was, whether the handler returns or raises.
\<close>

lemma endpoint_changes_only_on_full_object:
  assumes "snd (create_transaction_endpoint values s) \<noteq> s"
  shows "\<exists>kvs. values = JObj kvs \<and> set required \<subseteq> fst ` set kvs"
proof -
  from assms obtain a where ok: "all_in required values = Inr True" and a: "getitem values ''sender'' = Inr a"
    by (auto simp: create_transaction_endpoint_def split: sum.splits if_splits)
  from all_in_True [OF ok _ a] show ?thesis by (simp add: required_def)
qed

section \<open>The call under the limit on digits\<close>

lemma format_int_within:
  "max_str_digits = 0 \<or> \<bar>i\<bar> < 10 ^ max_str_digits \<Longrightarrow> format_int max_str_digits i = Inr (str_int i)"
  by (auto simp: format_int_def)

lemma format_int_beyond:
  "0 < max_str_digits \<Longrightarrow> 10 ^ max_str_digits \<le> \<bar>i\<bar> \<Longrightarrow> format_int max_str_digits i = Inl ValueError"
  by (simp add: format_int_def)

text \<open>Within the limit, or without one, the call returns the verdict.\<close>

lemma valid_proof_call_within:
  assumes "max_str_digits = 0 \<or> (\<bar>a\<bar> < 10 ^ max_str_digits \<and> \<bar>b\<bar> < 10 ^ max_str_digits)"
  shows "valid_proof_call max_str_digits a b = Inr (valid_proof a b)"
proof -
  from assms have "format_int max_str_digits a = Inr (str_int a)"
    and "format_int max_str_digits b = Inr (str_int b)"
    by (auto intro: format_int_within)
  then show ?thesis by (simp add: valid_proof_call_def valid_proof_def Let_def)
qed

text \<open>Beyond it, the first conversion that fails ends the call.\<close>

lemma valid_proof_call_beyond:
  assumes "0 < max_str_digits"
    and "10 ^ max_str_digits \<le> \<bar>a\<bar> \<or> 10 ^ max_str_digits \<le> \<bar>b\<bar>"
  shows "valid_proof_call max_str_digits a b = Inl ValueError"
  using assms by (auto simp: valid_proof_call_def format_int_def)

lemma small_within_default: "\<bar>i::int\<bar> < 1000 \<Longrightarrow> \<bar>i\<bar> < 10 ^ default_max_str_digits"
proof -
  assume a: "\<bar>i\<bar> < 1000"
  have "(10::int) ^ 3 \<le> 10 ^ default_max_str_digits"
    unfolding default_max_str_digits_def by (rule power_increasing) simp_all
  moreover have "(10::int) ^ 3 = 1000" by simp
  ultimately show ?thesis using a by linarith
qed

text \<open>Two digests, as \<^verbatim>\<open>hashlib\<close> gives them for \<^verbatim>\<open>b'100226'\<close> and \<^verbatim>\<open>b'-100226'\<close>.\<close>

lemma digest_100_226:
  "hexdigest (sha256 (encode (str_int 100 @ str_int 226)))
     = ''00e06c672cf57bedd84988524edfe6db6b6e7169d894234e704aa5f6b4c40071''"
  by code_simp

lemma digest_neg_100_226:
  "hexdigest (sha256 (encode (str_int (- 100) @ str_int 226)))
     = ''2635a1bed9812a77b06416d677982fedfbbf111ea45cea9a2c03437f44f011c5''"
  by code_simp

section \<open>The claims\<close>

text \<open>
  C7. A freshly constructed \<^verbatim>\<open>Blockchain\<close> has a chain of exactly one block, the genesis
  block: index 1, no transactions, the sentinel \<open>1\<close> as previous hash and the constant
  proof \<open>100\<close>. Nothing is pending, and \<^verbatim>\<open>last_block\<close> returns the genesis block.
\<close>

theorem genesis_block:
  "chain (init now) =
     [\<lparr>index = 1, timestamp = now, transactions = [], proof' = 100, previous_hash = JInt 1\<rparr>]
   \<and> current_transactions (init now) = []
   \<and> last_block (init now) =
       Inr \<lparr>index = 1, timestamp = now, transactions = [], proof' = 100, previous_hash = JInt 1\<rparr>"
  by (simp add: init_def create_block_def last_block_def Let_def)

text \<open>
  C6. In every state reachable from a fresh ledger by \<^verbatim>\<open>create_transaction\<close> and
  \<^verbatim>\<open>create_block\<close>, the block at position \<open>i\<close> of the chain has index \<open>i + 1\<close>.
\<close>

theorem chain_indices:
  "reachable s \<Longrightarrow> i < length (chain s) \<Longrightarrow> index (chain s ! i) = int i + 1"
  using reachable_inv [of s] by (simp add: indexed_def)

theorem chain_indices_witness:
  "reachable ledger_b \<and> 1 < length (chain ledger_b) \<and> index (chain ledger_b ! 1) = 2"
proof -
  have len: "1 < length (chain ledger_b)" by (simp add: chain_ledger_b)
  from chain_indices [OF reachable_ledger_b len] show ?thesis
    using reachable_ledger_b len by simp
qed

text \<open>
  C5. In every reachable state, \<^verbatim>\<open>create_transaction\<close> appends exactly one transaction to
  the pending list, changes nothing else, and returns the length of the chain plus 1. On a
  fresh ledger the first call returns 2.
\<close>

theorem create_transaction_returns:
  "reachable s \<Longrightarrow>
   create_transaction a b c s =
     (Inr (int (length (chain s)) + 1),
      s\<lparr>current_transactions :=
           current_transactions s @ [\<lparr>sender = a, recipient = b, amount = c\<rparr>]\<rparr>)"
proof -
  assume r: "reachable s"
  from reachable_inv [OF r] have ne: "chain s \<noteq> []" and ix: "indexed (chain s)" by simp_all
  from ne have "length (chain s) - 1 < length (chain s)" by simp
  with ix have "index (chain s ! (length (chain s) - 1)) = int (length (chain s) - 1) + 1"
    unfolding indexed_def by blast
  moreover from ne have "int (length (chain s) - 1) + 1 = int (length (chain s))"
    by (cases "chain s") simp_all
  ultimately have "index (last (chain s)) = int (length (chain s))"
    using ne by (simp add: last_conv_nth)
  with ne show ?thesis
    by (simp add: create_transaction_def last_block_def Let_def)
qed

theorem create_transaction_returns_witness:
  "reachable (init 1541030400)
   \<and> create_transaction (JStr ''a'') (JStr ''b'') (JInt 5) (init 1541030400) =
       (Inr 2,
        (init 1541030400)\<lparr>current_transactions :=
           [\<lparr>sender = JStr ''a'', recipient = JStr ''b'', amount = JInt 5\<rparr>]\<rparr>)"
proof -
  have r: "reachable (init 1541030400)" by (rule reachable_init)
  from create_transaction_returns [OF r, of "JStr ''a''" "JStr ''b''" "JInt 5"] r
  show ?thesis by (simp add: init_def create_block_def Let_def)
qed

text \<open>
  C2. The block made by \<^verbatim>\<open>create_block\<close> carries exactly the pending list, and the new
  state has an empty pending list and the chain extended by that block. Hence, when the
  transfers \<open>txs\<close> are enqueued one by one after a commit, the next commit produces a block
  whose transactions are \<open>txs\<close>, in the order of the calls, each once.
\<close>

theorem create_block_takes_pending:
  "transactions (fst (create_block p h now s)) = current_transactions s
   \<and> current_transactions (snd (create_block p h now s)) = []
   \<and> chain (snd (create_block p h now s)) = chain s @ [fst (create_block p h now s)]
   \<and> transactions
        (fst (create_block p h now (enqueue_all txs (snd (create_block p0 h0 now0 s0)))))
      = map transfer txs"
  by (simp add: create_block_fst create_block_pending create_block_chain enqueue_all_pending)

text \<open>
  C4, as stated, promises a verdict for every pair of integers. Under the interpreter's
  default limit of 4300 digits the call with the reference \<open>10\<^sup>4\<^sup>3\<^sup>0\<^sup>0\<close>, which has 4301 digits,
  raises \<^verbatim>\<open>ValueError\<close> in the f-string and returns no verdict.
\<close>

theorem valid_proof_call_counterexample:
  "valid_proof_call default_max_str_digits (10 ^ default_max_str_digits) 0 = Inl ValueError"
proof -
  have pos: "0 < default_max_str_digits" by (simp add: default_max_str_digits_def)
  have "(0::int) \<le> 10 ^ default_max_str_digits" by (rule zero_le_power) simp
  then have "(10::int) ^ default_max_str_digits \<le> \<bar>10 ^ default_max_str_digits\<bar>"
    by (simp only: abs_of_nonneg order_refl)
  from format_int_beyond [OF pos this] show ?thesis
    by (simp only: valid_proof_call_def sum.case)
qed

text \<open>
  C4, amended. For every pair of integers within the interpreter's limit on digits, and for
  every pair of integers when the limit is off, the call returns, and it returns true
  exactly when the first two characters of the hexadecimal SHA-256 digest of the decimal
  string of the reference followed by the decimal string of the candidate are both \<^verbatim>\<open>0\<close>.
  The digest has 64 characters, so both exist; they are both \<^verbatim>\<open>0\<close> exactly when the digest,
  as a number, is below \<open>2\<^sup>2\<^sup>4\<^sup>8\<close>. The digest is the one \<^verbatim>\<open>hashlib\<close> computes: for the pair
  \<open>(-100, 226)\<close> it is the SHA-256 of \<^verbatim>\<open>b'-100226'\<close>. The call reads and writes no state.
\<close>

theorem valid_proof_call_verdict:
  assumes "max_str_digits = 0
           \<or> (\<bar>reference\<bar> < 10 ^ max_str_digits \<and> \<bar>candidate\<bar> < 10 ^ max_str_digits)"
  shows "valid_proof_call max_str_digits reference candidate =
           Inr (hexdigest (sha256 (encode (str_int reference @ str_int candidate))) ! 0 = CHR ''0''
              \<and> hexdigest (sha256 (encode (str_int reference @ str_int candidate))) ! 1 = CHR ''0'')
         \<and> valid_proof_call max_str_digits reference candidate =
           Inr (digest_value (sha256 (encode (str_int reference @ str_int candidate))) < 2 ^ 248)
         \<and> length (hexdigest (sha256 (encode (str_int reference @ str_int candidate)))) = 64
         \<and> hexdigest (sha256 (encode (str_int (- 100) @ str_int 226)))
             = ''2635a1bed9812a77b06416d677982fedfbbf111ea45cea9a2c03437f44f011c5''"
proof -
  let ?d = "hexdigest (sha256 (encode (str_int reference @ str_int candidate)))"
  have len: "length ?d = 64" by (rule length_hexdigest)
  then have "take 2 ?d = [?d ! 0, ?d ! 1]"
    by (simp add: take_Suc_conv_app_nth numeral_2_eq_2)
  then have chars: "valid_proof reference candidate \<longleftrightarrow> ?d ! 0 = CHR ''0'' \<and> ?d ! 1 = CHR ''0''"
    by (simp add: valid_proof_def Let_def)
  have num: "valid_proof reference candidate \<longleftrightarrow>
      digest_value (sha256 (encode (str_int reference @ str_int candidate))) < 2 ^ 248"
    unfolding valid_proof_def Let_def by (rule valid_iff_top_byte)
  from valid_proof_call_within [OF assms]
  have call: "valid_proof_call max_str_digits reference candidate = Inr (valid_proof reference candidate)" .
  show ?thesis
    using call chars num len digest_neg_100_226 by (simp only: simp_thms)
qed

theorem valid_proof_call_verdict_witness:
  "(default_max_str_digits = 0
      \<or> (\<bar>100\<bar> < (10::int) ^ default_max_str_digits \<and> \<bar>226\<bar> < (10::int) ^ default_max_str_digits))
   \<and> valid_proof_call default_max_str_digits 100 226 = Inr True
   \<and> hexdigest (sha256 (encode (str_int 100 @ str_int 226)))
       = ''00e06c672cf57bedd84988524edfe6db6b6e7169d894234e704aa5f6b4c40071''
   \<and> digest_value (sha256 (encode (str_int 100 @ str_int 226))) < 2 ^ 248"
proof -
  have a: "\<bar>100\<bar> < (10::int) ^ default_max_str_digits" by (rule small_within_default) simp
  have b: "\<bar>226\<bar> < (10::int) ^ default_max_str_digits" by (rule small_within_default) simp
  have h: "default_max_str_digits = 0
      \<or> (\<bar>100\<bar> < (10::int) ^ default_max_str_digits \<and> \<bar>226\<bar> < (10::int) ^ default_max_str_digits)"
    using a b by blast
  have d0: "hexdigest (sha256 (encode (str_int 100 @ str_int 226))) ! 0 = CHR ''0''"
    and d1: "hexdigest (sha256 (encode (str_int 100 @ str_int 226))) ! 1 = CHR ''0''"
    by (simp_all add: digest_100_226)
  from valid_proof_call_verdict [OF h]
  have c1: "valid_proof_call default_max_str_digits 100 226 =
           Inr (hexdigest (sha256 (encode (str_int 100 @ str_int 226))) ! 0 = CHR ''0''
              \<and> hexdigest (sha256 (encode (str_int 100 @ str_int 226))) ! 1 = CHR ''0'')"
    and c2: "valid_proof_call default_max_str_digits 100 226 =
           Inr (digest_value (sha256 (encode (str_int 100 @ str_int 226))) < 2 ^ 248)"
    by blast+
  from c1 d0 d1 have t: "valid_proof_call default_max_str_digits 100 226 = Inr True"
    by (simp only: simp_thms)
  with c2 have n: "digest_value (sha256 (encode (str_int 100 @ str_int 226))) < 2 ^ 248"
    by (simp only: sum.inject simp_thms)
  from h t n digest_100_226 show ?thesis by blast
qed



text \<open>
  C3. If some non-negative candidate is valid for the reference, \<^verbatim>\<open>proof_of_work\<close> returns
  a valid non-negative candidate below which no non-negative candidate is valid: the
  least one. For the reference 67 it returns 1.
\<close>

theorem proof_of_work_minimal:
  "0 \<le> c \<Longrightarrow> valid_proof r c \<Longrightarrow>
   \<exists>p. proof_of_work r = Some p \<and> 0 \<le> p \<and> valid_proof r p
       \<and> (\<forall>c'. 0 \<le> c' \<and> c' < p \<longrightarrow> \<not> valid_proof r c')"
  using loop_finds [of r c 0] unfolding proof_of_work_def by blast

theorem proof_of_work_minimal_witness:
  "(0::int) \<le> 1 \<and> valid_proof 67 1 \<and> proof_of_work 67 = Some 1 \<and> \<not> valid_proof 67 0"
proof -
  from proof_of_work_minimal [of 1 67] valid_proof_67_1
  obtain p where p: "proof_of_work 67 = Some p" "0 \<le> p" "valid_proof 67 p"
    "\<forall>c'. 0 \<le> c' \<and> c' < p \<longrightarrow> \<not> valid_proof 67 c'"
    by auto
  from p(4) valid_proof_67_1 have "p \<le> 1" by (metis not_le zero_le_one)
  moreover from p(3) valid_proof_67_0 have "p \<noteq> 0" by auto
  ultimately have "p = 1" using p(2) by simp
  with p(1) valid_proof_67_1 valid_proof_67_0 show ?thesis by simp
qed

text \<open>
  C8. If some non-negative candidate \<open>c\<close> is valid for the reference, the search of
  \<^verbatim>\<open>proof_of_work\<close>, which starts at 0 and goes up by 1, ends: it returns a valid
  candidate, and that candidate is at most \<open>c\<close>.
\<close>

theorem proof_of_work_terminates:
  "0 \<le> c \<Longrightarrow> valid_proof r c \<Longrightarrow>
   \<exists>p. proof_of_work r = Some p \<and> 0 \<le> p \<and> p \<le> c \<and> valid_proof r p"
  using loop_finds [of r c 0] unfolding proof_of_work_def by blast

theorem proof_of_work_terminates_witness:
  "(0::int) \<le> 226 \<and> valid_proof 100 226
   \<and> (\<exists>p. proof_of_work 100 = Some p \<and> 0 \<le> p \<and> p \<le> 226 \<and> valid_proof 100 p)"
  using proof_of_work_terminates [of 226 100] valid_proof_100_226 by simp

text \<open>
  C1, as stated: in every state reachable by \<^verbatim>\<open>create_transaction\<close> and \<^verbatim>\<open>create_block\<close>,
  each block after the first has \<open>previous_hash\<close> equal to the hash of the block before it.
  This fails: \<^verbatim>\<open>create_block\<close> stores the \<open>previous_hash\<close> it is given. In \<open>ledger_b\<close> the
  second block was committed with \<^verbatim>\<open>'abc'\<close>, which is not the hash of the genesis block.
\<close>

theorem chain_linkage_counterexample:
  "reachable ledger_b \<and> (0::nat) < 1 \<and> 1 < length (chain ledger_b)
   \<and> previous_hash (chain ledger_b ! 1) = JStr ''abc''
   \<and> hash repr_integral (chain ledger_b ! (1 - 1))
       = ''1d7aed1306591daf3108a9d8f831c03029d95f30df258f2169cd0dd80275890d''
   \<and> previous_hash (chain ledger_b ! 1) \<noteq> JStr (hash repr_integral (chain ledger_b ! (1 - 1)))"
  using reachable_ledger_b by (simp add: chain_ledger_b hash_genesis)

text \<open>
  C1, amended: in every state reachable by \<^verbatim>\<open>create_transaction\<close> and by \<^verbatim>\<open>create_block\<close>
  calls that are each given the hash of the block that is last at that moment, as \<^verbatim>\<open>/mine\<close>
  does, each block after the first has \<open>previous_hash\<close> equal to the hash of the block
  before it.
\<close>

theorem linked_chain:
  "reachable_linked float_repr s \<Longrightarrow> 0 < i \<Longrightarrow> i < length (chain s) \<Longrightarrow>
   previous_hash (chain s ! i) = JStr (hash float_repr (chain s ! (i - 1)))"
  using linked_inv [of float_repr s] by (simp add: linked_def)

theorem linked_chain_witness:
  "reachable_linked repr_integral ledger_c \<and> (0::nat) < 1 \<and> 1 < length (chain ledger_c)
   \<and> previous_hash (chain ledger_c ! 1) = JStr (hash repr_integral (chain ledger_c ! (1 - 1)))
   \<and> previous_hash (chain ledger_c ! 1)
       = JStr ''1d7aed1306591daf3108a9d8f831c03029d95f30df258f2169cd0dd80275890d''"
proof -
  have len: "1 < length (chain ledger_c)" by (simp add: chain_ledger_c)
  from linked_chain [OF reachable_linked_ledger_c _ len]
  have "previous_hash (chain ledger_c ! 1) = JStr (hash repr_integral (chain ledger_c ! (1 - 1)))"
    by simp
  moreover have "previous_hash (chain ledger_c ! 1)
       = JStr ''1d7aed1306591daf3108a9d8f831c03029d95f30df258f2169cd0dd80275890d''"
    by (simp add: chain_ledger_c)
  ultimately show ?thesis using reachable_linked_ledger_c len by simp
qed

text \<open>
  C9. The handler checks the required fields before it touches the ledger, and answers a
  dict without one of them with status 400 (lemma \<open>object_missing_field\<close>). The check is
  \<^verbatim>\<open>k in values\<close>, which asks for a key only when the body is a dict. A request whose body is
  the JSON value \<^verbatim>\<open>null\<close> or a number has none of the three fields, and the check itself
  raises \<^verbatim>\<open>TypeError\<close>; the list of the three names has none of them either, passes the
  check as a list of elements, and \<^verbatim>\<open>values['sender']\<close> raises \<^verbatim>\<open>TypeError\<close>. None of these
  requests is answered with a client error. The ledger is unchanged in each case.
\<close>

theorem missing_fields_not_rejected:
  "create_transaction_endpoint JNull s = (Inl TypeError, s)
   \<and> create_transaction_endpoint (JInt 5) s = (Inl TypeError, s)
   \<and> create_transaction_endpoint (JArr [JStr ''sender'', JStr ''recipient'', JStr ''amount'']) s
       = (Inl TypeError, s)"
  by (simp add: create_transaction_endpoint_def required_def)

end
